theory Spec2Isabelle
  imports Complex_Main "HOL-Library.AList"
begin

section \<open>Python values, errors and containers\<close>

text \<open>
  The development embeds parts of \<^verbatim>\<open>src/DataFusr/fem_STAADutils.py\<close>: the helpers of
  the encoder (\<^verbatim>\<open>_check_row_length\<close>, \<^verbatim>\<open>_check_duplicate_entries\<close>,
  \<^verbatim>\<open>check_length_of_line\<close>), the decoder class \<^verbatim>\<open>RawStdFile\<close> (\<^verbatim>\<open>read_file\<close>,
  \<^verbatim>\<open>detail_members\<close>, \<^verbatim>\<open>get_unit\<close>, \<^verbatim>\<open>get_material\<close>) and the two functions run on
  a decoded file, \<^verbatim>\<open>convert_direction\<close> and \<^verbatim>\<open>check_required_information\<close>.

  Every exception the Python can raise is a value of the type \<open>error\<close> below: a
  function that may raise returns a sum, whose left injection carries the exception
  and whose right injection carries the value returned.
\<close>

datatype error =
    IndexError
  | ValueError
  | KeyError
  | TypeError
  | OverflowError
  | NotImplementedError string

text \<open>
  The values stored in the untyped dictionaries of a decoded file: \<^verbatim>\<open>None\<close>, a number
  (Python \<^verbatim>\<open>int\<close> or \<^verbatim>\<open>float\<close>, read as the real number it denotes), a string, or a
  list of strings (the expanded member lists). Dictionary keys are strings or integers.
  A dictionary is an association list in insertion order.
\<close>

datatype pyval = PNone | PNum real | PStr string | PList "string list"

datatype pykey = KInt int | KStr string

type_synonym item = "(string \<times> pyval) list"

record member_inc =
  start_node :: "real list"
  end_node :: "real list"
  start_node_ID :: string
  end_node_ID :: string

record fixed_but =
  KFX :: pyval
  KFY :: pyval
  KFZ :: pyval
  KMX :: pyval
  KMY :: pyval
  KMZ :: pyval
  assigned_node :: "string list"

record loadcase =
  load_type :: string
  load_name :: string
  load_items :: "(string \<times> (pykey \<times> item) list) list"

text \<open>
  A material as \<^verbatim>\<open>get_material\<close> stores it: a dictionary with these nine keys, a
  missing property being \<^verbatim>\<open>None\<close>. The type \<open>'f\<close> is that of the floats.

  The attributes of \<^verbatim>\<open>RawStdFile\<close> that \<^verbatim>\<open>convert_direction\<close> and
  \<^verbatim>\<open>check_required_information\<close> read or write. The other attributes of the class
  (\<^verbatim>\<open>units\<close>, \<^verbatim>\<open>constants\<close>, \<^verbatim>\<open>beta_angles\<close>, \<^verbatim>\<open>offsets\<close>, \<^verbatim>\<open>envelopes\<close>,
  \<^verbatim>\<open>groups\<close>) are touched by neither function. \<^verbatim>\<open>supports\<close> is the dictionary under
  the key \<^verbatim>\<open>'FIXED BUT'\<close>, the only entry \<^verbatim>\<open>convert_direction\<close> rewrites.
\<close>

record 'f material =
  name :: string
  youngs_modulus :: "'f option"
  poissons_ratio :: "'f option"
  mass_density :: "'f option"
  alpha :: "'f option"
  damping_coefficient :: "'f option"
  shear_modulus :: "'f option"
  type :: "string option"
  feature :: string

record RawStdFile =
  direction :: string
  joint_coordinates :: "(string \<times> real list) list"
  member_incidences :: "(string \<times> member_inc) list"
  element_incidences_shell :: "(string \<times> item) list"
  materials :: "(string \<times> real material) list"
  member_properties :: "(pykey \<times> item) list"
  element_properties :: "(pykey \<times> item) list"
  supports_fixed_but :: "(pykey \<times> fixed_but) list"
  primary_loadcases :: "(string \<times> loadcase) list"
  load_combinations :: "(string \<times> item) list"

section \<open>Sequencing computations that may raise\<close>

text \<open>The first exception raised is the result.\<close>

definition ebind :: "error + 'a \<Rightarrow> ('a \<Rightarrow> error + 'b) \<Rightarrow> error + 'b" where
  "ebind m f = (case m of Inl e \<Rightarrow> Inl e | Inr x \<Rightarrow> f x)"

section \<open>Python strings, indexing and integers\<close>

text \<open>
  Strings are lists of characters; a \<open>char\<close> is a code point below 256, so that the
  strings of the model are the Python strings without characters from 256 up.
  \<^verbatim>\<open>s.split(sep)\<close> with a one-character separator keeps the empty fields, and
  returns one empty field on the empty string.
\<close>

fun split_char :: "char \<Rightarrow> string \<Rightarrow> string list" where
  "split_char sep [] = [[]]"
| "split_char sep (c # cs) =
     (if c = sep then [] # split_char sep cs
      else (case split_char sep cs of [] \<Rightarrow> [[c]] | w # ws \<Rightarrow> (c # w) # ws))"

definition split_sp :: "string \<Rightarrow> string list" where
  "split_sp s = split_char CHR '' '' s"

text \<open>
  \<^verbatim>\<open>sub in s\<close>, and \<^verbatim>\<open>re.findall(sub, s)\<close> or \<^verbatim>\<open>re.search(sub, s)\<close> finding a match
  for a pattern without metacharacters: \<open>sub\<close> occurs in \<open>s\<close>.
\<close>

fun is_in :: "string \<Rightarrow> string \<Rightarrow> bool" where
  "is_in sub [] = (sub = [])"
| "is_in sub (c # cs) = (take (length sub) (c # cs) = sub \<or> is_in sub cs)"

text \<open>\<^verbatim>\<open>xs[i]\<close>: a negative index counts from the end; out of range raises.\<close>

definition py_get :: "'a list \<Rightarrow> int \<Rightarrow> error + 'a" where
  "py_get xs i =
     (let len = int (length xs); pos = (if i < 0 then i + len else i)
      in if pos < 0 \<or> len \<le> pos then Inl IndexError else Inr (xs ! nat pos))"

text \<open>
  \<^verbatim>\<open>int(s)\<close> on a string, as CPython 3.11 reads it. Whitespace is stripped at both
  ends: the characters 9 to 13 and the space, and, among the characters from 127 up,
  the Unicode spaces 133 and 160 (the separators 28 to 31 are not stripped). A sign may
  come first, then decimal digits, with single underscores allowed between digits.
  Anything else raises \<^verbatim>\<open>ValueError\<close>, and so does a text with more than 4300 digits
  (\<^verbatim>\<open>sys.int_info.default_max_str_digits\<close>).
\<close>

definition is_digit :: "char \<Rightarrow> bool" where
  "is_digit c = (c \<in> set ''0123456789'')"

definition digit_val :: "char \<Rightarrow> nat" where
  "digit_val c = of_char c - 48"

definition is_space :: "char \<Rightarrow> bool" where
  "is_space c = ((of_char c :: nat) \<in> {9, 10, 11, 12, 13, 32, 133, 160})"

definition py_strip :: "string \<Rightarrow> string" where
  "py_strip s = rev (dropWhile is_space (rev (dropWhile is_space s)))"

definition max_str_digits :: nat where
  "max_str_digits = 4300"

fun digits_to_nat :: "string \<Rightarrow> nat \<Rightarrow> nat option" where
  "digits_to_nat [] acc = Some acc"
| "digits_to_nat (c # cs) acc =
     (if is_digit c then digits_to_nat cs (10 * acc + digit_val c)
      else if c = CHR ''_'' then
        (case cs of [] \<Rightarrow> None
         | d # ds \<Rightarrow> if is_digit d then digits_to_nat ds (10 * acc + digit_val d) else None)
      else None)"

definition py_nat :: "string \<Rightarrow> nat option" where
  "py_nat s = (case s of [] \<Rightarrow> None
     | c # cs \<Rightarrow> if is_digit c then digits_to_nat cs (digit_val c) else None)"

definition py_int :: "string \<Rightarrow> error + int" where
  "py_int s =
     (let t = py_strip s in
      if max_str_digits < length (filter is_digit t) then Inl ValueError
      else
        (case t of [] \<Rightarrow> Inl ValueError
         | c # cs \<Rightarrow>
             if c = CHR ''-'' then (case py_nat cs of None \<Rightarrow> Inl ValueError | Some n \<Rightarrow> Inr (- int n))
             else if c = CHR ''+'' then (case py_nat cs of None \<Rightarrow> Inl ValueError | Some n \<Rightarrow> Inr (int n))
             else (case py_nat (c # cs) of None \<Rightarrow> Inl ValueError | Some n \<Rightarrow> Inr (int n))))"

text \<open>
  \<^verbatim>\<open>str(i)\<close> on an integer: the decimal digits, with a minus sign when negative.
  CPython 3.11 raises \<^verbatim>\<open>ValueError\<close> when there are more than 4300 digits.
\<close>

fun str_nat :: "nat \<Rightarrow> string" where
  "str_nat n = (if n < 10 then [''0123456789'' ! n]
                else str_nat (n div 10) @ [''0123456789'' ! (n mod 10)])"

declare str_nat.simps [simp del]

definition numeral_of :: "int \<Rightarrow> string" where
  "numeral_of i = (if i < 0 then CHR ''-'' # str_nat (nat (- i)) else str_nat (nat i))"

definition str_int :: "int \<Rightarrow> error + string" where
  "str_int i =
     (if max_str_digits < length (str_nat (nat \<bar>i\<bar>)) then Inl ValueError
      else Inr (numeral_of i))"

text \<open>\<^verbatim>\<open>str\<close> on each integer of a list in turn, up to the first that raises.\<close>

fun str_all :: "int list \<Rightarrow> error + string list" where
  "str_all [] = Inr []"
| "str_all (k # ks) = ebind (str_int k) (\<lambda>s. ebind (str_all ks) (\<lambda>ss. Inr (s # ss)))"

section \<open>Units of the file\<close>






section \<open>Row packer\<close>

text \<open>
  \<^verbatim>\<open>_check_row_length(project, string_list)\<close>. The first loop stores every record in
  a dictionary under the integer its first field denotes (a later record replaces an
  earlier one with the same number); the records are then taken in ascending order of
  their number and appended to rows. The column limit
  \<^verbatim>\<open>project.staad_settings.staad_column_limit\<close> is a project constant defined outside
  this module, and is a parameter here.
\<close>

fun number_items :: "string list \<Rightarrow> (int \<times> string) list \<Rightarrow> error + (int \<times> string) list" where
  "number_items [] ref_strings = Inr ref_strings"
| "number_items (item # rest) ref_strings =
     ebind (py_get (split_sp item) 0) (\<lambda>tok.
     ebind (py_int tok) (\<lambda>k.
       number_items rest (AList.update k item ref_strings)))"

text \<open>
  \<^verbatim>\<open>[ref_strings[key] for key in sorted(ref_strings.keys())]\<close>; every key looked up is a
  key of the dictionary, so the lookup cannot fail.
\<close>

definition in_key_order :: "(int \<times> string) list \<Rightarrow> string list" where
  "in_key_order ref_strings =
     map (\<lambda>key. case map_of ref_strings key of Some v \<Rightarrow> v | None \<Rightarrow> [])
       (sort (map fst ref_strings))"

text \<open>
  The filling loop, with the loop index \<open>i\<close> of \<^verbatim>\<open>enumerate\<close>; \<open>row\<close> is always the
  index of the last row of \<open>output_list\<close>.
\<close>

fun fill_rows :: "int \<Rightarrow> nat \<Rightarrow> string list \<Rightarrow> string list \<Rightarrow> nat \<Rightarrow> string list" where
  "fill_rows limit i [] output_list row = output_list"
| "fill_rows limit i (s # rest) output_list row =
     (if int (length (output_list ! row)) + int (length s) > limit
      then fill_rows limit (i + 1) rest (output_list @ [s]) (row + 1)
      else if i = 0
      then fill_rows limit (i + 1) rest (output_list[row := output_list ! row @ s]) row
      else fill_rows limit (i + 1) rest (output_list[row := output_list ! row @ '' '' @ s]) row)"

definition check_row_length :: "int \<Rightarrow> string list \<Rightarrow> error + string list" where
  "check_row_length staad_column_limit string_list =
     ebind (number_items string_list []) (\<lambda>ref_strings.
       Inr (fill_rows staad_column_limit 0 (in_key_order ref_strings) [''''] 0))"

text \<open>Three joint records as \<^verbatim>\<open>MeshNode.to_staad\<close> writes them (\<^verbatim>\<open>'%i %.3f %.3f %.3f;'\<close>).\<close>

definition joints_79 :: "string list" where
  "joints_79 = [''1 100.000 100.000 10.000;'', ''2 100.000 100.000 100.000;'',
                ''3 100.000 100.000 200.000;'']"

section \<open>Range compressor and list expansion\<close>

text \<open>
  The run builder of \<^verbatim>\<open>_check_duplicate_entries\<close> (the loop that "tidies the list of
  members"): the members of one feature are sorted and walked by index, and the text
  \<open>list_of_shapes\<close> grows by the first id, by \<^verbatim>\<open>' TO ' + id\<close> at the end of a run, and
  by \<^verbatim>\<open>' ' + id\<close> at an id that does not continue a run. The tests are those of the
  source, in its order; \<open>member ! (i - 1)\<close> is only read after the first branch has
  filled \<open>list_of_shapes\<close>, that is for \<open>i > 0\<close>.
\<close>

fun tidy_loop :: "int list \<Rightarrow> nat list \<Rightarrow> string \<Rightarrow> error + string" where
  "tidy_loop member [] list_of_shapes = Inr list_of_shapes"
| "tidy_loop member (i # rest) list_of_shapes =
     (let lmb = length member in
      if list_of_shapes = ''''
      then ebind (str_int (member ! i)) (\<lambda>s.
             tidy_loop member rest (list_of_shapes @ s))
      else if i = lmb - 1 \<and> member ! i = member ! (i - 1) + 1
      then ebind (str_int (member ! i)) (\<lambda>s.
             tidy_loop member rest (list_of_shapes @ '' TO '' @ s))
      else if i = lmb - 1
      then ebind (str_int (member ! i)) (\<lambda>s.
             tidy_loop member rest (list_of_shapes @ '' '' @ s))
      else if i < lmb - 1 \<and> member ! i = member ! (i - 1) + 1
              \<and> member ! i + 1 \<noteq> member ! (i + 1)
      then ebind (str_int (member ! i)) (\<lambda>s.
             tidy_loop member rest (list_of_shapes @ '' TO '' @ s))
      else if i < lmb - 1 \<and> member ! i \<noteq> member ! (i - 1) + 1
      then ebind (str_int (member ! i)) (\<lambda>s.
             tidy_loop member rest (list_of_shapes @ '' '' @ s))
      else tidy_loop member rest list_of_shapes)"

definition tidy_members :: "int list \<Rightarrow> error + string" where
  "tidy_members memb = (let member = sort memb in tidy_loop member [0..<length member] '''')"

text \<open>
  \<^verbatim>\<open>RawStdFile.detail_members\<close>: the loop over the indices of \<open>string_list\<close>. At a
  \<^verbatim>\<open>TO\<close> the neighbours are read with Python's indexing (index \<open>-1\<close> is the last
  token, an index past the end raises) and converted with \<^verbatim>\<open>int\<close>; the integers
  strictly between them are appended as \<^verbatim>\<open>str\<close> writes them.
\<close>

fun dm_loop :: "string list \<Rightarrow> nat list \<Rightarrow> string list \<Rightarrow> error + string list" where
  "dm_loop string_list [] members = Inr members"
| "dm_loop string_list (j # rest) members =
     (if string_list ! j \<noteq> ''TO'' then dm_loop string_list rest (members @ [string_list ! j])
      else
        ebind (py_get string_list (int j - 1)) (\<lambda>p.
        ebind (py_int p) (\<lambda>a.
        ebind (py_get string_list (int j + 1)) (\<lambda>n.
        ebind (py_int n) (\<lambda>b.
        ebind (str_all [a + 1..b - 1]) (\<lambda>new.
          dm_loop string_list rest (members @ new)))))))"

text \<open>\<^verbatim>\<open>while ("" in members): members.remove("")\<close>\<close>

function remove_empty :: "string list \<Rightarrow> string list" where
  "remove_empty members =
     (if '''' \<in> set members then remove_empty (remove1 '''' members) else members)"
  by pat_completeness auto
termination
proof (relation "measure length")
  show "wf (measure length)" by simp
next
  fix members :: "string list"
  assume "'''' \<in> set members"
  then have "length (remove1 '''' members) < length members"
    using length_pos_if_in_set [of "''''" members] by (simp add: length_remove1)
  then show "(remove1 '''' members, members) \<in> measure length" by simp
qed

declare remove_empty.simps [simp del]

definition detail_members :: "string list \<Rightarrow> error + string list" where
  "detail_members string_list =
     ebind (dm_loop string_list [0..<length string_list] []) (\<lambda>members.
       Inr (remove_empty members))"

text \<open>
  The same expansion as a recursion over the tokens, each taken with the token before
  it; \<open>dm_loop_expand_rec\<close> below shows that the loop computes it.
\<close>

fun expand_rec :: "error + string \<Rightarrow> string list \<Rightarrow> error + string list" where
  "expand_rec prev [] = Inr []"
| "expand_rec prev (t # ts) =
     (if t \<noteq> ''TO'' then ebind (expand_rec (Inr t) ts) (\<lambda>r. Inr (t # r))
      else
        ebind prev (\<lambda>p.
        ebind (py_int p) (\<lambda>a.
        ebind (py_get ts 0) (\<lambda>n.
        ebind (py_int n) (\<lambda>b.
        ebind (str_all [a + 1..b - 1]) (\<lambda>new.
        ebind (expand_rec (Inr t) ts) (\<lambda>r.
          Inr (new @ r))))))))"

section \<open>Line wrapper\<close>

text \<open>\<^verbatim>\<open>s.index(c)\<close>: the position of the first occurrence, \<^verbatim>\<open>ValueError\<close> when there is none.\<close>

definition py_index :: "'a list \<Rightarrow> 'a \<Rightarrow> error + nat" where
  "py_index xs x =
     (if x \<in> set xs then Inr (length (takeWhile (\<lambda>y. y \<noteq> x) xs)) else Inl ValueError)"

text \<open>
  The \<^verbatim>\<open>while\<close> loop of \<^verbatim>\<open>check_length_of_line\<close>, with its variables \<open>n\<close>,
  \<open>string_to_breakdown\<close> and \<open>split_string\<close>. The loop ends because the cut
  \<open>location_of_split\<close> is at least 1.
\<close>

function break_loop :: "nat \<Rightarrow> string \<Rightarrow> string list \<Rightarrow> error + string list" where
  "break_loop n string_to_breakdown split_string =
     (if length string_to_breakdown > n then
        (let str_in_range = take n string_to_breakdown;
             leftover = drop n string_to_breakdown;
             reverse_string = rev str_in_range
         in case py_index reverse_string CHR '' '' of
              Inl e \<Rightarrow> Inl e
            | Inr location_of_split_in_rvrse \<Rightarrow>
                (let location_of_split = length str_in_range - location_of_split_in_rvrse;
                     string_to_write = take location_of_split str_in_range @ ''-''
                 in break_loop n (drop location_of_split str_in_range @ leftover)
                      (split_string @ [string_to_write])))
      else Inr (split_string @ [string_to_breakdown]))"
  by pat_completeness auto
termination
proof (relation "measure (\<lambda>(n, s, acc). length s)", goal_cases)
  case 1
  show ?case by simp
next
  case (2 n s acc str_in_range leftover reverse_string k location_of_split string_to_write)
  then have k: "py_index (rev (take n s)) CHR '' '' = Inr k" by simp
  have lt: "length (takeWhile (\<lambda>y. y \<noteq> c) xs) < length xs" if "c \<in> set xs"
    for c :: char and xs
    using that by (induction xs) auto
  from k have "k < length (rev (take n s))"
    using lt [of "CHR '' ''" "rev (take n s)"] by (auto simp: py_index_def split: if_splits)
  with 2 show ?case by auto
qed

declare break_loop.simps [simp del]

definition check_length_of_line :: "string \<Rightarrow> error + string list" where
  "check_length_of_line string_to_check =
     (if length string_to_check > 78 then break_loop (78 - 2) string_to_check []
      else Inr [string_to_check])"

text \<open>
  Rejoining, written from the specification of the line joiner: the marker that ends a
  line is stripped; when the marker was preceded by a space the next line follows
  directly, otherwise one space is inserted.
\<close>

fun rejoin_spec :: "string list \<Rightarrow> string" where
  "rejoin_spec [] = []"
| "rejoin_spec [l] = l"
| "rejoin_spec (l # l' # ls) =
     (let body = butlast l
      in if body \<noteq> [] \<and> last body = CHR '' '' then body @ rejoin_spec (l' # ls)
         else body @ '' '' @ rejoin_spec (l' # ls))"

text \<open>
  A line is breakable when every window of \<open>n\<close> characters that has characters after
  it contains a space. \<open>wrapped limit ls s\<close>: the lines \<open>ls\<close> are a wrapping of
  \<open>s\<close> within \<open>limit\<close> columns.
\<close>

definition breakable :: "nat \<Rightarrow> string \<Rightarrow> bool" where
  "breakable n s = (\<forall>i \<in> set [0..<length s - n]. CHR '' '' \<in> set (take n (drop i s)))"

definition wrapped :: "nat \<Rightarrow> string list \<Rightarrow> string \<Rightarrow> bool" where
  "wrapped limit ls s \<longleftrightarrow>
     ls \<noteq> [] \<and> (\<forall>l \<in> set ls. length l \<le> limit)
     \<and> (\<forall>l \<in> set (butlast ls). l \<noteq> [] \<and> last l = CHR ''-'')
     \<and> rejoin_spec ls = s"

text \<open>A line of 80 characters with a space in every fifth column.\<close>

definition line_80 :: string where
  "line_80 = concat (replicate 16 ''abcd '')"

section \<open>Completeness check\<close>



text \<open>Two decoded files used as concrete inputs.\<close>

definition doc_empty :: RawStdFile where
  "doc_empty = \<lparr> direction = ''Y'', joint_coordinates = [], member_incidences = [],
     element_incidences_shell = [], materials = [], member_properties = [],
     element_properties = [], supports_fixed_but = [], primary_loadcases = [],
     load_combinations = [] \<rparr>"


section \<open>Axis normalisation\<close>

text \<open>
  \<^verbatim>\<open>convert_direction\<close> rewrites a decoded file with up-axis \<^verbatim>\<open>Y\<close> in place, one
  dictionary after the other, and returns it. In the model each loop maps the entries
  of one dictionary; an exception in a loop is the result of the function.

  \<^verbatim>\<open>d[k]\<close> on a dictionary raises \<^verbatim>\<open>KeyError\<close> on a missing key; \<^verbatim>\<open>d[k] = v\<close>
  replaces the value of an existing key in place, or appends the key.
\<close>

definition py_key :: "('k \<times> 'v) list \<Rightarrow> 'k \<Rightarrow> error + 'v" where
  "py_key d k = (case map_of d k of Some v \<Rightarrow> Inr v | None \<Rightarrow> Inl KeyError)"

fun map_values :: "('v \<Rightarrow> error + 'v) \<Rightarrow> ('k \<times> 'v) list \<Rightarrow> error + ('k \<times> 'v) list" where
  "map_values f [] = Inr []"
| "map_values f ((k, v) # rest) =
     ebind (f v) (\<lambda>v'. ebind (map_values f rest) (\<lambda>rest'. Inr ((k, v') # rest')))"

fun map_items :: "('k \<Rightarrow> 'v \<Rightarrow> error + 'v) \<Rightarrow> ('k \<times> 'v) list \<Rightarrow> error + ('k \<times> 'v) list" where
  "map_items f [] = Inr []"
| "map_items f ((k, v) # rest) =
     ebind (f k v) (\<lambda>v'. ebind (map_items f rest) (\<lambda>rest'. Inr ((k, v') # rest')))"

text \<open>
  \<^verbatim>\<open>-1 * v\<close>: the negated number; the empty string or list for a string or a list;
  \<^verbatim>\<open>TypeError\<close> for \<^verbatim>\<open>None\<close>. Negation of a float is exact.
\<close>

definition neg1_mul :: "pyval \<Rightarrow> error + pyval" where
  "neg1_mul v = (case v of PNone \<Rightarrow> Inl TypeError | PNum r \<Rightarrow> Inr (PNum (- 1 * r))
     | PStr s \<Rightarrow> Inr (PStr '''') | PList l \<Rightarrow> Inr (PList []))"

text \<open>
  \<^verbatim>\<open>float(v)\<close>. The reading of a string as a float is a parameter \<open>pfloat\<close>
  (\<open>None\<close> when Python raises \<^verbatim>\<open>ValueError\<close>).
\<close>

definition py_float :: "(string \<Rightarrow> real option) \<Rightarrow> pyval \<Rightarrow> error + real" where
  "py_float pfloat v = (case v of PNone \<Rightarrow> Inl TypeError | PNum r \<Rightarrow> Inr r
     | PStr s \<Rightarrow> (case pfloat s of None \<Rightarrow> Inl ValueError | Some r \<Rightarrow> Inr r)
     | PList l \<Rightarrow> Inl TypeError)"

text \<open>The joint coordinates: \<^verbatim>\<open>[x, -z, y]\<close>.\<close>

definition convert_joint :: "real list \<Rightarrow> error + real list" where
  "convert_joint value =
     ebind (py_get value 0) (\<lambda>x.
     ebind (py_get value 1) (\<lambda>y.
     ebind (py_get value 2) (\<lambda>z.
       Inr [x, - z, y])))"

text \<open>The member incidences: the end coordinates are looked up again.\<close>

definition convert_member ::
  "(string \<times> real list) list \<Rightarrow> member_inc \<Rightarrow> error + member_inc" where
  "convert_member joint_coordinates' value =
     ebind (py_key joint_coordinates' (start_node_ID value)) (\<lambda>s.
     ebind (py_key joint_coordinates' (end_node_ID value)) (\<lambda>e.
       Inr (value \<lparr> start_node := s, end_node := e \<rparr>)))"

text \<open>The supports under \<^verbatim>\<open>'FIXED BUT'\<close>: the Y and Z entries change places.\<close>

definition convert_k :: "(string \<Rightarrow> real option) \<Rightarrow> pyval \<Rightarrow> error + pyval" where
  "convert_k pfloat v =
     (if v \<noteq> PNone then ebind (py_float pfloat v) (\<lambda>r. Inr (PNum r)) else Inr PNone)"

definition convert_support :: "(string \<Rightarrow> real option) \<Rightarrow> fixed_but \<Rightarrow> error + fixed_but" where
  "convert_support pfloat value1 =
     ebind (convert_k pfloat (KFX value1)) (\<lambda>k_fx.
     ebind (convert_k pfloat (KFZ value1)) (\<lambda>k_fy.
     ebind (convert_k pfloat (KFY value1)) (\<lambda>k_fz.
     ebind (convert_k pfloat (KMX value1)) (\<lambda>k_mx.
     ebind (convert_k pfloat (KMZ value1)) (\<lambda>k_my.
     ebind (convert_k pfloat (KMY value1)) (\<lambda>k_mz.
       Inr \<lparr> KFX = k_fx, KFY = k_fy, KFZ = k_fz, KMX = k_mx, KMY = k_my, KMZ = k_mz,
             assigned_node = assigned_node value1 \<rparr>))))))"

text \<open>The load items. \<^verbatim>\<open>SELFWEIGHT\<close>: the direction becomes \<^verbatim>\<open>Z\<close>.\<close>

definition convert_selfweight :: "item \<Rightarrow> error + item" where
  "convert_selfweight value2 = Inr (AList.update ''direction'' (PStr ''Z'') value2)"

text \<open>
  \<^verbatim>\<open>JOINT LOAD\<close>: the six components are read and a dictionary with the components
  exchanged is built, \<open>value2'\<close>; the source binds it to the loop variable
  (\<^verbatim>\<open>value2 = {...}\<close>) and stores it nowhere, so the entry of the file stays as it was.
\<close>

definition convert_joint_load :: "item \<Rightarrow> error + item" where
  "convert_joint_load value2 =
     ebind (py_key value2 ''FX'') (\<lambda>fx.
     ebind (py_key value2 ''FZ'') (\<lambda>old_fz.
     ebind (if old_fz = PNone then Inr PNone else neg1_mul old_fz) (\<lambda>fy.
     ebind (py_key value2 ''FY'') (\<lambda>fz.
     ebind (py_key value2 ''MX'') (\<lambda>mx.
     ebind (py_key value2 ''MZ'') (\<lambda>old_mz.
     ebind (if old_mz = PNone then Inr PNone else neg1_mul old_mz) (\<lambda>my.
     ebind (py_key value2 ''MY'') (\<lambda>mz.
       (let value2' = [(''FX'', fx), (''FY'', fy), (''FZ'', fz),
                       (''MX'', mx), (''MY'', my), (''MZ'', mz)]
        in Inr value2)))))))))"

text \<open>
  \<^verbatim>\<open>MEMBER LOAD\<close>: the direction codes \<^verbatim>\<open>GY\<close> and \<^verbatim>\<open>GZ\<close> change places. For
  \<^verbatim>\<open>GZ\<close> the source then evaluates the comparison
  \<^verbatim>\<open>value2['force'] == -1 * value2['force']\<close>, whose result is dropped:
  the force is read and multiplied, and the item keeps its force.
\<close>

definition convert_member_load :: "item \<Rightarrow> error + item" where
  "convert_member_load value2 =
     ebind (py_key value2 ''direction'') (\<lambda>d.
       if d = PStr ''GY'' then Inr (AList.update ''direction'' (PStr ''GZ'') value2)
       else if d = PStr ''GZ'' then
         (let value2' = AList.update ''direction'' (PStr ''GY'') value2
          in ebind (py_key value2' ''force'') (\<lambda>f.
             ebind (neg1_mul f) (\<lambda>negated. Inr value2')))
       else Inr value2)"

text \<open>\<^verbatim>\<open>ELEMENT LOAD\<close>: as for members, and for \<^verbatim>\<open>GZ\<close> the force is assigned.\<close>

definition convert_element_load :: "item \<Rightarrow> error + item" where
  "convert_element_load value2 =
     ebind (py_key value2 ''direction'') (\<lambda>d.
       if d = PStr ''GY'' then Inr (AList.update ''direction'' (PStr ''GZ'') value2)
       else if d = PStr ''GZ'' then
         (let value2' = AList.update ''direction'' (PStr ''GY'') value2
          in ebind (py_key value2' ''force'') (\<lambda>f.
             ebind (neg1_mul f) (\<lambda>negated.
               Inr (AList.update ''force'' negated value2'))))
       else Inr value2)"

definition convert_load_items ::
  "string \<Rightarrow> (pykey \<times> item) list \<Rightarrow> error + (pykey \<times> item) list" where
  "convert_load_items key1 value1 =
     (if key1 = ''SELFWEIGHT'' then map_values convert_selfweight value1
      else if key1 = ''JOINT LOAD'' then map_values convert_joint_load value1
      else if key1 = ''MEMBER LOAD'' then map_values convert_member_load value1
      else if key1 = ''ELEMENT LOAD'' then map_values convert_element_load value1
      else Inr value1)"

definition convert_loadcase :: "loadcase \<Rightarrow> error + loadcase" where
  "convert_loadcase value =
     ebind (map_items convert_load_items (load_items value)) (\<lambda>items.
       Inr (value \<lparr> load_items := items \<rparr>))"

definition convert_direction ::
  "(string \<Rightarrow> real option) \<Rightarrow> RawStdFile \<Rightarrow> error + RawStdFile" where
  "convert_direction pfloat RawStd =
     (if direction RawStd = ''Z'' then Inr RawStd
      else if direction RawStd = ''Y'' then
        ebind (map_values convert_joint (joint_coordinates RawStd)) (\<lambda>jc.
        ebind (map_values (convert_member jc) (member_incidences RawStd)) (\<lambda>mi.
        ebind (map_values (convert_support pfloat) (supports_fixed_but RawStd)) (\<lambda>sp.
        ebind (map_values convert_loadcase (primary_loadcases RawStd)) (\<lambda>lc.
          Inr (RawStd \<lparr> direction := ''Z'', joint_coordinates := jc, member_incidences := mi,
                 supports_fixed_but := sp, primary_loadcases := lc \<rparr>)))))
      else Inl (NotImplementedError
        ''ERROR: The direction sets in std file is not supported to covert.''))"

text \<open>
  A decoded file with up-axis \<^verbatim>\<open>Y\<close>, one joint at (1, 2, 3) and one load case that
  holds a uniform member load of 10 in direction \<^verbatim>\<open>GZ\<close> and a shell pressure of 10 in
  direction \<^verbatim>\<open>GZ\<close>, as \<^verbatim>\<open>get_primary_loadcases\<close> stores them.
\<close>

definition doc_member_load :: RawStdFile where
  "doc_member_load = doc_empty \<lparr>
     joint_coordinates := [(''1'', [1, 2, 3])],
     primary_loadcases := [(''1'', \<lparr> load_type = ''Live'', load_name = ''LL'',
       load_items = [
         (''MEMBER LOAD'', [(KInt 1, [(''load_type'', PStr ''uniform_force''),
            (''direction'', PStr ''GZ''), (''force'', PNum 10), (''d1'', PNone),
            (''d2'', PNone), (''d3'', PNone), (''assigned_members'', PList [''1''])])]),
         (''ELEMENT LOAD'', [(KInt 1, [(''load_type'', PStr ''pressure_on_full_plate''),
            (''force'', PNum 10), (''direction'', PStr ''GZ''),
            (''assigned_members'', PList [''7''])])])] \<rparr>)] \<rparr>"

text \<open>
  A decoded file with up-axis \<^verbatim>\<open>Y\<close> and one load case that holds a joint load and a
  support displacement load with the components 1 to 6, as
  \<^verbatim>\<open>get_primary_loadcases\<close> stores them.
\<close>

definition components_1_to_6 :: item where
  "components_1_to_6 = [(''FX'', PNum 1), (''FY'', PNum 2), (''FZ'', PNum 3),
     (''MX'', PNum 4), (''MY'', PNum 5), (''MZ'', PNum 6), (''assigned_members'', PList [''1''])]"

definition doc_joint_load :: RawStdFile where
  "doc_joint_load = doc_empty \<lparr>
     primary_loadcases := [(''1'', \<lparr> load_type = ''Live'', load_name = ''LL'',
       load_items = [(''JOINT LOAD'', [(KInt 1, components_1_to_6)]),
                     (''SUPPORT DISPLACEMENT LOAD'', [(KInt 1, components_1_to_6)])] \<rparr>)] \<rparr>"

section \<open>Line joiner\<close>

text \<open>
  The loop of \<^verbatim>\<open>RawStdFile.read_file\<close> over the lines that \<^verbatim>\<open>fem_read_file\<close>
  returned. \<^verbatim>\<open>s[-k:]\<close> is the last \<open>k\<close> characters of \<open>s\<close> (all of \<open>s\<close> when it is
  shorter) and \<^verbatim>\<open>s[:-k]\<close> is \<open>s\<close> without them.
\<close>

definition last_chars :: "nat \<Rightarrow> string \<Rightarrow> string" where
  "last_chars k s = drop (length s - k) s"

definition without_last :: "nat \<Rightarrow> string \<Rightarrow> string" where
  "without_last k s = take (length s - k) s"

text \<open>
  The first test is \<^verbatim>\<open>re.search("(\*)", lines[i]) or lines[i] == ''\<close>: the pattern
  matches a star anywhere in the line. The second test,
  \<^verbatim>\<open>lines[i].split(" ")[0] == "*" or lines[i][0] == "*"\<close>, is reached only by a
  non-empty line without a star. The two merging branches read the line before,
  \<^verbatim>\<open>lines[i - 1]\<close>, which for \<open>i = 0\<close> is the last line of the file, and the last
  logical line \<^verbatim>\<open>refine_data[-1]\<close>.
\<close>

fun read_loop :: "string list \<Rightarrow> nat list \<Rightarrow> string list \<Rightarrow> error + string list" where
  "read_loop lines [] refine_data = Inr refine_data"
| "read_loop lines (i # rest) refine_data =
     (let line = lines ! i in
      if is_in ''*'' line \<or> line = '''' then read_loop lines rest refine_data
      else if take 1 (split_sp line) = [''*''] \<or> take 1 line = ''*''
      then read_loop lines rest refine_data
      else
        ebind (py_get lines (int i - 1)) (\<lambda>prev.
          if last_chars 1 prev = ''-'' \<and> \<not> is_in ''TITLE'' prev then
            ebind (py_get refine_data (- 1)) (\<lambda>logical.
            ebind (py_get prev (- 2)) (\<lambda>c.
              (let extra = (if c = CHR '' '' then '''' else '' '')
               in read_loop lines rest
                    (butlast refine_data @ [without_last 1 logical @ extra @ line]))))
          else if last_chars 2 prev = ''- '' then
            ebind (py_get refine_data (- 1)) (\<lambda>logical.
            ebind (py_get prev (- 3)) (\<lambda>c.
              (let extra = (if c = CHR '' '' then '''' else '' '')
               in read_loop lines rest
                    (butlast refine_data @ [without_last 2 logical @ extra @ line]))))
          else read_loop lines rest (refine_data @ [line])))"

definition read_file :: "string list \<Rightarrow> error + string list" where
  "read_file lines = read_loop lines [0..<length lines] []"

section \<open>Theorems\<close>

subsection \<open>Basic facts\<close>

lemma ebind_simps [simp]:
  "ebind (Inl e) f = Inl e"
  "ebind (Inr x) f = f x"
  by (simp_all add: ebind_def)

lemma ebind_eq_Inr: "ebind m f = Inr y \<longleftrightarrow> (\<exists>x. m = Inr x \<and> f x = Inr y)"
  by (cases m) simp_all

lemma py_get_in_range: "0 \<le> i \<Longrightarrow> nat i < length xs \<Longrightarrow> py_get xs i = Inr (xs ! nat i)"
  by (auto simp: py_get_def Let_def)

lemmas py_int_eval = py_int_def py_strip_def is_space_def py_nat_def is_digit_def digit_val_def
  max_str_digits_def Let_def

lemma split_char_nonempty: "split_char sep s \<noteq> []"
  by (induction s) (auto split: list.splits)

subsection \<open>Completeness check\<close>



subsection \<open>Units\<close>







subsection \<open>Row packer\<close>

text \<open>
  Claim C10. The test that starts a new row compares the limit with the length of the
  row plus the length of the record, without the separating space: with the limit 78,
  three joint records of 25, 26 and 26 characters are packed into one row of 79
  characters.
\<close>

theorem check_row_length_exceeds_limit:
  "check_row_length 78 joints_79 =
     Inr [''1 100.000 100.000 10.000; 2 100.000 100.000 100.000; 3 100.000 100.000 200.000;'']
   \<and> length ''1 100.000 100.000 10.000; 2 100.000 100.000 100.000; 3 100.000 100.000 200.000;'' = 79"
  by (simp add: check_row_length_def joints_79_def split_sp_def py_get_def py_int_eval in_key_order_def)

subsection \<open>Range compressor and list expansion\<close>

lemma remove_empty_filter: "remove_empty members = filter (\<lambda>m. m \<noteq> '''') members"
proof (induction members rule: remove_empty.induct)
  case (1 members)
  show ?case
  proof (cases "'''' \<in> set members")
    case True
    have "filter (\<lambda>m. m \<noteq> '''') (remove1 '''' members) = filter (\<lambda>m. m \<noteq> '''') members"
      by (induction members) auto
    with 1 True show ?thesis by (subst remove_empty.simps) simp
  next
    case False
    then have "filter (\<lambda>m. m \<noteq> '''') members = members"
      by (induction members) auto
    with False show ?thesis by (subst remove_empty.simps) simp
  qed
qed

lemma py_get_next: "j < length sl \<Longrightarrow> py_get sl (int j + 1) = py_get (drop (Suc j) sl) 0"
  by (auto simp: py_get_def Let_def nat_add_distrib)

lemma py_get_prev: "j < length sl \<Longrightarrow> py_get sl (int (Suc j) - 1) = Inr (sl ! j)"
  by (auto simp: py_get_def Let_def)

lemma dm_loop_expand_rec:
  "j \<le> length sl \<Longrightarrow>
   dm_loop sl [j..<length sl] acc =
     ebind (expand_rec (py_get sl (int j - 1)) (drop j sl)) (\<lambda>r. Inr (acc @ r))"
proof (induction "length sl - j" arbitrary: j acc)
  case 0
  then show ?case by simp
next
  case (Suc n)
  then have j: "j < length sl" by simp
  then have upt: "[j..<length sl] = j # [Suc j..<length sl]" by (simp add: upt_conv_Cons)
  have drop: "drop j sl = sl ! j # drop (Suc j) sl" using j by (simp add: Cons_nth_drop_Suc)
  have IH: "\<And>acc. dm_loop sl [Suc j..<length sl] acc =
     ebind (expand_rec (Inr (sl ! j)) (drop (Suc j) sl)) (\<lambda>r. Inr (acc @ r))"
    using Suc(1)[of "Suc j"] Suc(2) j py_get_prev[OF j] by simp
  show ?case
  proof (cases "sl ! j = ''TO''")
    case False
    then show ?thesis
      unfolding upt drop
      by (cases "expand_rec (Inr (sl ! j)) (drop (Suc j) sl)") (simp_all add: IH)
  next
    case True
    show ?thesis
      unfolding upt drop
      using True
      apply (simp add: IH py_get_next[OF j])
      apply (cases "py_get sl (int j - 1)"; simp)
      subgoal for p
        apply (cases "py_int p"; simp)
        apply (cases "py_get (drop (Suc j) sl) 0"; simp)
        subgoal for a n
          apply (cases "py_int n"; simp)
          subgoal for b
            apply (cases "str_all [a + 1..b - 1]"; simp)
            apply (cases "expand_rec (Inr ''TO'') (drop (Suc j) sl)"; simp)
            done
          done
        done
      done
  qed
qed

lemma detail_members_expand_rec:
  "detail_members sl =
     ebind (expand_rec (py_get sl (- 1)) sl) (\<lambda>r. Inr (filter (\<lambda>m. m \<noteq> '''') r))"
  using dm_loop_expand_rec[of 0 sl "[]"]
  by (cases "expand_rec (py_get sl (- 1)) sl") (simp_all add: detail_members_def remove_empty_filter)

lemma expand_rec_prev_irrelevant:
  "ts = [] \<or> hd ts \<noteq> ''TO'' \<Longrightarrow> expand_rec p ts = expand_rec q ts"
  by (cases ts) auto

lemma py_get_0_append: "xs \<noteq> [] \<Longrightarrow> py_get (xs @ ys) 0 = py_get xs 0"
  by (cases xs) (auto simp: py_get_def Let_def)

lemma py_get_0_Cons: "py_get (x # xs) 0 = Inr x"
  by (simp add: py_get_def Let_def)

lemma expand_rec_split:
  "t \<noteq> ''TO'' \<Longrightarrow>
   expand_rec p (xs @ t # ys) =
     ebind (expand_rec p (xs @ [t])) (\<lambda>P. ebind (expand_rec (Inr t) ys) (\<lambda>Q. Inr (P @ Q)))"
proof (induction xs arbitrary: p)
  case Nil
  then show ?case by (cases "expand_rec (Inr t) ys") simp_all
next
  case (Cons x xs)
  have g: "py_get (xs @ t # ys) 0 = py_get (xs @ [t]) 0"
    by (cases xs) (simp_all add: py_get_0_Cons)
  show ?case
  proof (cases "x = ''TO''")
    case False
    then show ?thesis
      using Cons.IH[OF Cons.prems, of "Inr x"]
      by (cases "expand_rec (Inr x) (xs @ [t])"; cases "expand_rec (Inr t) ys") simp_all
  next
    case True
    show ?thesis
      using Cons.IH[OF Cons.prems, of "Inr ''TO''"] True
      apply (simp add: g)
      apply (cases p; simp)
      subgoal for pt
        apply (cases "py_int pt"; simp)
        apply (cases "py_get (xs @ [t]) 0"; simp)
        subgoal for a n
          apply (cases "py_int n"; simp)
          subgoal for b
            apply (cases "str_all [a + 1..b - 1]"; simp)
            apply (cases "expand_rec (Inr ''TO'') (xs @ [t])"; cases "expand_rec (Inr t) ys"; simp)
            done
          done
        done
      done
  qed
qed

lemma expand_rec_last:
  "t \<noteq> ''TO'' \<Longrightarrow> expand_rec p (xs @ [t]) = Inr R \<Longrightarrow> \<exists>R'. R = R' @ [t]"
proof (induction xs arbitrary: p R)
  case Nil
  then show ?case by auto
next
  case (Cons x xs)
  show ?case
  proof (cases "x = ''TO''")
    case False
    with Cons.prems obtain r where r: "expand_rec (Inr x) (xs @ [t]) = Inr r" and R: "R = x # r"
      by (auto simp: ebind_eq_Inr)
    from Cons.IH[OF Cons.prems(1) r] obtain R' where "r = R' @ [t]" by blast
    with R show ?thesis by auto
  next
    case True
    with Cons.prems obtain r pre where r: "expand_rec (Inr ''TO'') (xs @ [t]) = Inr r"
      and R: "R = pre @ r"
      by (auto simp: ebind_eq_Inr)
    from Cons.IH[OF Cons.prems(1) r] obtain R' where "r = R' @ [t]" by blast
    with R show ?thesis by auto
  qed
qed

lemma py_int_TO: "py_int ''TO'' = Inl ValueError"
  by (simp add: py_int_eval)

lemma py_int_empty: "py_int '''' = Inl ValueError"
  by (simp add: py_int_eval)

lemma str_nat_nonempty: "str_nat n \<noteq> []"
  by (subst str_nat.simps) simp

lemma numeral_of_nonempty: "numeral_of i \<noteq> []"
  by (simp add: numeral_of_def str_nat_nonempty)

lemma filter_numeral_of: "filter (\<lambda>m. m \<noteq> '''') (map numeral_of ks) = map numeral_of ks"
  by (induction ks) (simp_all add: numeral_of_nonempty)

lemma digit_val_le: "is_digit c \<Longrightarrow> digit_val c \<le> 9"
  by (auto simp: is_digit_def digit_val_def)

lemma digits_to_nat_bound:
  "digits_to_nat cs acc = Some v \<Longrightarrow> v < (acc + 1) * 10 ^ length (filter is_digit cs)"
proof (induction cs acc rule: digits_to_nat.induct)
  case (1 acc)
  then show ?case by simp
next
  case (2 c cs acc)
  show ?case
  proof (cases "is_digit c")
    case True
    with "2.prems" have "digits_to_nat cs (10 * acc + digit_val c) = Some v" by simp
    from "2.IH"(1)[OF True this]
    have "v < (10 * acc + digit_val c + 1) * 10 ^ length (filter is_digit cs)" .
    also have "\<dots> \<le> (10 * (acc + 1)) * 10 ^ length (filter is_digit cs)"
      using digit_val_le[OF True] by (intro mult_right_mono) simp_all
    finally show ?thesis using True by (simp add: algebra_simps)
  next
    case False
    with "2.prems" have u: "c = CHR ''_''" by (simp split: if_splits)
    with False "2.prems" obtain d ds where cs: "cs = d # ds" and d: "is_digit d"
      and r: "digits_to_nat ds (10 * acc + digit_val d) = Some v"
      by (cases cs) (auto split: if_splits)
    from "2.IH"(2)[OF False u cs d r]
    have "v < (10 * acc + digit_val d + 1) * 10 ^ length (filter is_digit ds)" .
    also have "\<dots> \<le> (10 * (acc + 1)) * 10 ^ length (filter is_digit ds)"
      using digit_val_le[OF d] by (intro mult_right_mono) simp_all
    finally show ?thesis using False cs d by (simp add: algebra_simps)
  qed
qed

lemma py_nat_bound: "py_nat s = Some n \<Longrightarrow> n < 10 ^ length (filter is_digit s)"
proof -
  assume a: "py_nat s = Some n"
  then obtain c cs where s: "s = c # cs" and c: "is_digit c"
    and r: "digits_to_nat cs (digit_val c) = Some n"
    by (cases s) (auto simp: py_nat_def split: if_splits)
  from digits_to_nat_bound[OF r]
  have "n < (digit_val c + 1) * 10 ^ length (filter is_digit cs)" .
  also have "\<dots> \<le> 10 * 10 ^ length (filter is_digit cs)"
    using digit_val_le[OF c] by (intro mult_right_mono) simp_all
  finally show ?thesis using s c by (simp add: algebra_simps)
qed

lemma py_int_bound:
  assumes "py_int s = Inr a"
  shows "\<bar>a\<bar> < 10 ^ max_str_digits"
proof -
  define t where "t = py_strip s"
  from assms have len: "length (filter is_digit t) \<le> max_str_digits"
    by (auto simp: py_int_def Let_def t_def split: if_splits)
  have small: "int n < 10 ^ max_str_digits"
    if "py_nat u = Some n" "length (filter is_digit u) \<le> length (filter is_digit t)" for u n
  proof -
    from py_nat_bound[OF that(1)] have "n < 10 ^ length (filter is_digit u)" .
    also have "\<dots> \<le> (10 :: nat) ^ max_str_digits"
      using that(2) len by (intro power_increasing) simp_all
    finally have "int n < int (10 ^ max_str_digits)" by (simp only: of_nat_less_iff)
    then show ?thesis by simp
  qed
  from assms len obtain c cs where tc: "t = c # cs"
    by (cases t) (auto simp: py_int_def Let_def t_def)
  from assms len tc consider
      n where "py_nat cs = Some n" "a = - int n"
    | n where "py_nat cs = Some n" "a = int n"
    | n where "py_nat (c # cs) = Some n" "a = int n"
    by (auto simp: py_int_def Let_def t_def[symmetric] split: if_splits option.splits)
  then show ?thesis
  proof cases
    case 1
    from small[OF 1(1)] tc 1(2) show ?thesis by simp
  next
    case 2
    from small[OF 2(1)] tc 2(2) show ?thesis by simp
  next
    case 3
    from small[OF 3(1)] tc 3(2) show ?thesis by simp
  qed
qed

lemma str_nat_length: "n < 10 ^ d \<Longrightarrow> 0 < d \<Longrightarrow> length (str_nat n) \<le> d"
proof (induction n arbitrary: d rule: str_nat.induct)
  case (1 n)
  show ?case
  proof (cases "n < 10")
    case True
    with "1.prems" show ?thesis by (subst str_nat.simps) simp
  next
    case False
    from "1.prems" obtain d' where d: "d = Suc d'" by (cases d) auto
    with False "1.prems" have d': "0 < d'" by (cases d') auto
    from "1.prems" d have "n div 10 < 10 ^ d'" by (simp add: less_mult_imp_div_less mult.commute)
    from "1.IH"[OF False this d'] have "length (str_nat (n div 10)) \<le> d'" .
    with False d show ?thesis by (subst str_nat.simps) simp
  qed
qed

lemma str_int_small: "\<bar>k\<bar> < 10 ^ max_str_digits \<Longrightarrow> str_int k = Inr (numeral_of k)"
proof -
  assume "\<bar>k\<bar> < 10 ^ max_str_digits"
  then have "int (nat \<bar>k\<bar>) < int (10 ^ max_str_digits)" by simp
  then have "nat \<bar>k\<bar> < 10 ^ max_str_digits" by (simp only: of_nat_less_iff)
  moreover have "0 < max_str_digits" by (simp add: max_str_digits_def)
  ultimately have "length (str_nat (nat \<bar>k\<bar>)) \<le> max_str_digits" by (rule str_nat_length)
  then show ?thesis by (simp add: str_int_def)
qed

lemma str_all_small:
  "\<forall>k \<in> set ks. \<bar>k\<bar> < 10 ^ max_str_digits \<Longrightarrow> str_all ks = Inr (map numeral_of ks)"
  by (induction ks) (simp_all add: str_int_small)

lemma str_all_between:
  assumes "py_int ta = Inr a" "py_int tb = Inr b"
  shows "str_all [a + 1..b - 1] = Inr (map numeral_of [a + 1..b - 1])"
proof (rule str_all_small, rule ballI)
  fix k assume "k \<in> set [a + 1..b - 1]"
  then have "\<bar>k\<bar> \<le> max \<bar>a\<bar> \<bar>b\<bar>" by auto
  with py_int_bound[OF assms(1)] py_int_bound[OF assms(2)]
  show "\<bar>k\<bar> < 10 ^ max_str_digits" by linarith
qed

lemma detail_members_any_prev:
  "ts = [] \<or> hd ts \<noteq> ''TO'' \<Longrightarrow>
   detail_members ts = ebind (expand_rec q ts) (\<lambda>r. Inr (filter (\<lambda>m. m \<noteq> '''') r))"
  using expand_rec_prev_irrelevant[of ts "py_get ts (- 1)" q]
  by (simp add: detail_members_expand_rec)

lemma detail_members_TO_eq:
  assumes a: "py_int ta = Inr a" and b: "py_int tb = Inr b"
    and pre: "pre = [] \<or> hd pre \<noteq> ''TO''"
  shows "detail_members (pre @ [ta, ''TO'', tb] @ post) =
     ebind (detail_members (pre @ [ta])) (\<lambda>P.
     ebind (detail_members (tb # post)) (\<lambda>Q.
       Inr (P @ map numeral_of [a + 1..b - 1] @ Q)))"
proof -
  from a have ta: "ta \<noteq> ''TO''" using py_int_TO by auto
  from b have tb: "tb \<noteq> ''TO''" using py_int_TO by auto
  let ?q = "Inr ''TO'' :: error + string"
  have h1: "pre @ [ta, ''TO'', tb] @ post = [] \<or> hd (pre @ [ta, ''TO'', tb] @ post) \<noteq> ''TO''"
    using pre ta by (cases pre) auto
  have h2: "pre @ [ta] = [] \<or> hd (pre @ [ta]) \<noteq> ''TO''"
    using pre ta by (cases pre) auto
  have h3: "tb # post = [] \<or> hd (tb # post) \<noteq> ''TO''" using tb by simp
  have mid: "expand_rec (Inr ta) (''TO'' # tb # post) =
      ebind (expand_rec ?q (tb # post)) (\<lambda>r. Inr (map numeral_of [a + 1..b - 1] @ r))"
    using a b by (simp add: py_get_0_Cons str_all_between[OF a b])
  have full: "expand_rec ?q (pre @ [ta, ''TO'', tb] @ post) =
      ebind (expand_rec ?q (pre @ [ta])) (\<lambda>P.
      ebind (expand_rec ?q (tb # post)) (\<lambda>r. Inr (P @ map numeral_of [a + 1..b - 1] @ r)))"
    using expand_rec_split[OF ta, of ?q pre "''TO'' # tb # post"]
    by (cases "expand_rec ?q (pre @ [ta])"; cases "expand_rec ?q (tb # post)")
       (simp_all add: mid del: expand_rec.simps)
  show ?thesis
    unfolding detail_members_any_prev[OF h1, of ?q] detail_members_any_prev[OF h2, of ?q]
      detail_members_any_prev[OF h3, of ?q] full
    by (cases "expand_rec ?q (pre @ [ta])"; cases "expand_rec ?q (tb # post)")
       (simp_all add: filter_numeral_of del: expand_rec.simps)
qed

lemma detail_members_ends:
  assumes a: "py_int ta = Inr a" and pre: "pre = [] \<or> hd pre \<noteq> ''TO''"
    and d: "detail_members (pre @ [ta]) = Inr P"
  shows "\<exists>P'. P = P' @ [ta]"
proof -
  from a have ta: "ta \<noteq> ''TO''" using py_int_TO by auto
  from a have ne: "ta \<noteq> ''''" using py_int_empty by auto
  have h2: "pre @ [ta] = [] \<or> hd (pre @ [ta]) \<noteq> ''TO''"
    using pre ta by (cases pre) auto
  from d obtain R where R: "expand_rec (Inr ''TO'') (pre @ [ta]) = Inr R"
    and P: "P = filter (\<lambda>m. m \<noteq> '''') R"
    unfolding detail_members_any_prev[OF h2, of "Inr ''TO''"] by (auto simp: ebind_eq_Inr)
  from expand_rec_last[OF ta R] obtain R' where "R = R' @ [ta]" by blast
  with P ne show ?thesis by auto
qed

lemma detail_members_starts:
  assumes b: "py_int tb = Inr b" and d: "detail_members (tb # post) = Inr Q"
  shows "\<exists>Q'. Q = tb # Q'"
proof -
  from b have tb: "tb \<noteq> ''TO''" using py_int_TO by auto
  from b have ne: "tb \<noteq> ''''" using py_int_empty by auto
  have h3: "tb # post = [] \<or> hd (tb # post) \<noteq> ''TO''" using tb by simp
  from d obtain R where R: "expand_rec (Inr ''TO'') (tb # post) = Inr R"
    and Q: "Q = filter (\<lambda>m. m \<noteq> '''') R"
    unfolding detail_members_any_prev[OF h3, of "Inr ''TO''"] by (auto simp: ebind_eq_Inr)
  from R tb obtain r where "R = tb # r" by (auto simp: ebind_eq_Inr)
  with Q ne show ?thesis by auto
qed

lemma tidy_example:
  "tidy_loop [1, 2, 3, 4, 5, 7, 9, 10, 11] [0..<length [1, 2, 3, 4, 5, 7, 9, 10, 11 :: int]] ''''
     = Inr ''1 TO 5 7 9 TO 11''"
  by code_simp

lemma sort_example:
  assumes "distinct memb" "set memb = {1, 2, 3, 4, 5, 7, 9, 10, 11 :: int}"
  shows "sort memb = [1, 2, 3, 4, 5, 7, 9, 10, 11]"
proof (rule sorted_distinct_set_unique)
  show "sorted (sort memb)" by simp
  show "distinct (sort memb)" using assms by simp
  show "sorted [1, 2, 3, 4, 5, 7, 9, 10, 11 :: int]" by simp
  show "distinct [1, 2, 3, 4, 5, 7, 9, 10, 11 :: int]" by simp
  show "set (sort memb) = set [1, 2, 3, 4, 5, 7, 9, 10, 11 :: int]" using assms by simp
qed

lemma detail_example:
  "detail_members (split_sp ''1 TO 5 7 9 TO 11'')
     = Inr (map numeral_of [1, 2, 3, 4, 5, 7, 9, 10, 11])"
  by code_simp

text \<open>
  Claim C1. Whatever the order in which the ids 1, 2, 3, 4, 5, 7, 9, 10, 11 are given,
  the run builder produces \<^verbatim>\<open>1 TO 5 7 9 TO 11\<close>, and \<^verbatim>\<open>detail_members\<close> on the
  fields of that text returns exactly these ids, in ascending order. In general, for
  tokens \<open>ta\<close> and \<open>tb\<close> that \<^verbatim>\<open>int\<close> reads as the integers \<open>a\<close> and \<open>b\<close>, in a
  token list that does not start with \<^verbatim>\<open>TO\<close>, the expansion of
  \<open>pre, ta, TO, tb, post\<close> succeeds exactly when the expansions of \<open>pre, ta\<close> and of
  \<open>tb, post\<close> succeed, and it is the first expansion, which ends with \<open>ta\<close>, then
  every integer from \<open>a + 1\<close> to \<open>b - 1\<close>, then the second expansion, which starts
  with \<open>tb\<close>.
\<close>

theorem range_syntax_round_trip:
  "(distinct memb \<and> set memb = {1, 2, 3, 4, 5, 7, 9, 10, 11} \<longrightarrow>
      tidy_members memb = Inr ''1 TO 5 7 9 TO 11''
      \<and> ebind (tidy_members memb) (\<lambda>clause. detail_members (split_sp clause))
          = Inr (map numeral_of (sort memb)))
   \<and> (py_int ta = Inr a \<and> py_int tb = Inr b \<and> (pre = [] \<or> hd pre \<noteq> ''TO'') \<longrightarrow>
      (detail_members (pre @ [ta, ''TO'', tb] @ post) = Inr out \<longleftrightarrow>
        (\<exists>P Q. detail_members (pre @ [ta]) = Inr (P @ [ta])
             \<and> detail_members (tb # post) = Inr (tb # Q)
             \<and> out = P @ [ta] @ map numeral_of [a + 1..b - 1] @ [tb] @ Q)))"
proof (intro conjI impI)
  assume h: "distinct memb \<and> set memb = {1, 2, 3, 4, 5, 7, 9, 10, 11}"
  then have s: "sort memb = [1, 2, 3, 4, 5, 7, 9, 10, 11]" by (simp add: sort_example)
  show t: "tidy_members memb = Inr ''1 TO 5 7 9 TO 11''"
    unfolding tidy_members_def Let_def s by (rule tidy_example)
  show "ebind (tidy_members memb) (\<lambda>clause. detail_members (split_sp clause))
      = Inr (map numeral_of (sort memb))"
    by (simp only: t s detail_example ebind_simps)
next
  assume h: "py_int ta = Inr a \<and> py_int tb = Inr b \<and> (pre = [] \<or> hd pre \<noteq> ''TO'')"
  then have a: "py_int ta = Inr a" and b: "py_int tb = Inr b"
    and pre: "pre = [] \<or> hd pre \<noteq> ''TO''" by auto
  note eq = detail_members_TO_eq[OF a b pre, of post]
  show "detail_members (pre @ [ta, ''TO'', tb] @ post) = Inr out \<longleftrightarrow>
        (\<exists>P Q. detail_members (pre @ [ta]) = Inr (P @ [ta])
             \<and> detail_members (tb # post) = Inr (tb # Q)
             \<and> out = P @ [ta] @ map numeral_of [a + 1..b - 1] @ [tb] @ Q)"
  proof
    assume "detail_members (pre @ [ta, ''TO'', tb] @ post) = Inr out"
    then obtain P0 Q0 where P0: "detail_members (pre @ [ta]) = Inr P0"
      and Q0: "detail_members (tb # post) = Inr Q0"
      and out: "out = P0 @ map numeral_of [a + 1..b - 1] @ Q0"
      unfolding eq by (auto simp: ebind_eq_Inr)
    from detail_members_ends[OF a pre P0] obtain P where "P0 = P @ [ta]" by blast
    moreover from detail_members_starts[OF b Q0] obtain Q where "Q0 = tb # Q" by blast
    ultimately show "\<exists>P Q. detail_members (pre @ [ta]) = Inr (P @ [ta])
             \<and> detail_members (tb # post) = Inr (tb # Q)
             \<and> out = P @ [ta] @ map numeral_of [a + 1..b - 1] @ [tb] @ Q"
      using P0 Q0 out by auto
  next
    assume "\<exists>P Q. detail_members (pre @ [ta]) = Inr (P @ [ta])
             \<and> detail_members (tb # post) = Inr (tb # Q)
             \<and> out = P @ [ta] @ map numeral_of [a + 1..b - 1] @ [tb] @ Q"
    then show "detail_members (pre @ [ta, ''TO'', tb] @ post) = Inr out"
      unfolding eq by auto
  qed
qed

theorem range_syntax_round_trip_witness:
  "tidy_members [9, 10, 11, 7, 1, 2, 3, 4, 5] = Inr ''1 TO 5 7 9 TO 11''
   \<and> ebind (tidy_members [9, 10, 11, 7, 1, 2, 3, 4, 5])
        (\<lambda>clause. detail_members (split_sp clause))
      = Inr (map numeral_of [1, 2, 3, 4, 5, 7, 9, 10, 11])
   \<and> detail_members ([''_G1'', ''3''] @ [''5'', ''TO'', ''8''] @ [''12''])
      = Inr ([''_G1'', ''3''] @ [''5''] @ [''6'', ''7''] @ [''8''] @ [''12''])"
proof -
  have d: "distinct [9, 10, 11, 7, 1, 2, 3, 4, 5 :: int]
      \<and> set [9, 10, 11, 7, 1, 2, 3, 4, 5 :: int] = {1, 2, 3, 4, 5, 7, 9, 10, 11}"
    by auto
  have s: "sort [9, 10, 11, 7, 1, 2, 3, 4, 5 :: int] = [1, 2, 3, 4, 5, 7, 9, 10, 11]"
    by code_simp
  have i5: "py_int ''5'' = Inr 5" and i8: "py_int ''8'' = Inr 8" by (simp_all add: py_int_eval)
  have p: "detail_members ([''_G1'', ''3''] @ [''5'']) = Inr ([''_G1'', ''3''] @ [''5''])" by code_simp
  have q: "detail_members (''8'' # [''12'']) = Inr (''8'' # [''12''])" by code_simp
  have r: "map numeral_of [5 + 1..8 - 1] = [''6'', ''7'']" by code_simp
  have g: "[''_G1'', ''3''] = [] \<or> hd [''_G1'', ''3''] \<noteq> ''TO''" by simp
  from range_syntax_round_trip[of "[9, 10, 11, 7, 1, 2, 3, 4, 5]" "''5''" 5 "''8''" 8
      "[''_G1'', ''3'']" "[''12'']" "[''_G1'', ''3''] @ [''5''] @ [''6'', ''7''] @ [''8''] @ [''12'']"]
  show ?thesis using d s i5 i8 p q r g by auto
qed

subsection \<open>Line wrapper\<close>

lemma break_loop_done: "\<not> n < length s \<Longrightarrow> break_loop n s acc = Inr (acc @ [s])"
  by (subst break_loop.simps) simp

lemma break_loop_fail:
  "n < length s \<Longrightarrow> CHR '' '' \<notin> set (take n s) \<Longrightarrow> break_loop n s acc = Inl ValueError"
  by (subst break_loop.simps) (simp add: py_index_def Let_def)

lemma break_loop_step:
  assumes n: "n < length s" and sp: "CHR '' '' \<in> set (take n s)"
  defines "k \<equiv> length (takeWhile (\<lambda>y. y \<noteq> CHR '' '') (rev (take n s)))"
  shows "break_loop n s acc = break_loop n (drop (n - k) s) (acc @ [take (n - k) s @ ''-''])"
    and "k < n" and "s ! (n - k - 1) = CHR '' ''"
proof -
  have len: "length (take n s) = n" using n by simp
  have lt: "length (takeWhile (\<lambda>y. y \<noteq> c) xs) < length xs" if "c \<in> set xs"
    for c :: char and xs
    using that by (induction xs) auto
  from sp have sp': "CHR '' '' \<in> set (rev (take n s))" by simp
  from lt[OF sp'] show k: "k < n" by (simp add: k_def len)
  have idx: "py_index (rev (take n s)) CHR '' '' = Inr k"
    using sp by (simp add: py_index_def k_def)
  have d: "drop (n - k) (take n s) @ drop n s = drop (n - k) s"
  proof -
    have "drop (n - k) s = drop (n - k) (take n s @ drop n s)" by simp
    also have "\<dots> = drop (n - k) (take n s) @ drop n s"
      using k len by (simp del: append_take_drop_id)
    finally show ?thesis by simp
  qed
  have t: "take (n - k) (take n s) = take (n - k) s" by (simp add: min_def)
  show "break_loop n s acc = break_loop n (drop (n - k) s) (acc @ [take (n - k) s @ ''-''])"
    by (subst break_loop.simps) (simp add: n idx Let_def len d t)
  have "\<not> (rev (take n s) ! k \<noteq> CHR '' '')"
    unfolding k_def
    by (rule nth_length_takeWhile) (use lt[OF sp'] in simp)
  then have "rev (take n s) ! k = CHR '' ''" by simp
  moreover have "rev (take n s) ! k = take n s ! (n - Suc k)"
    using k len by (simp add: rev_nth)
  moreover have "take n s ! (n - Suc k) = s ! (n - Suc k)" using k by simp
  ultimately show "s ! (n - k - 1) = CHR '' ''" by simp
qed

lemma break_loop_correct:
  "case break_loop n s acc of
     Inl e \<Rightarrow> e = ValueError \<and> \<not> breakable n s
   | Inr out \<Rightarrow> \<exists>ls. out = acc @ ls \<and> wrapped (n + 1) ls s"
proof (induction "length s" arbitrary: s acc rule: less_induct)
  case less
  show ?case
  proof (cases "n < length s")
    case False
    then show ?thesis by (simp add: break_loop_done wrapped_def)
  next
    case n: True
    show ?thesis
    proof (cases "CHR '' '' \<in> set (take n s)")
      case False
      have "0 \<in> set [0..<length s - n]" using n by simp
      with False have "\<not> breakable n s" unfolding breakable_def by (metis drop0)
      with n False show ?thesis by (simp add: break_loop_fail)
    next
      case sp: True
      define k where "k = length (takeWhile (\<lambda>y. y \<noteq> CHR '' '') (rev (take n s)))"
      define m where "m = n - k"
      note st = break_loop_step[OF n sp, folded k_def, folded m_def]
      have k: "k < n" using st(2) .
      have m: "1 \<le> m" "m \<le> n" using k by (simp_all add: m_def)
      have spc: "s ! (m - 1) = CHR '' ''" using st(3) by (simp add: m_def)
      let ?l = "take m s @ ''-''"
      let ?s' = "drop m s"
      have shorter: "length ?s' < length s" using m n by simp
      have eq: "break_loop n s acc = break_loop n ?s' (acc @ [?l])" using st(1) .
      note IH = less[OF shorter, of "acc @ [?l]"]
      show ?thesis
      proof (cases "break_loop n ?s' (acc @ [?l])")
        case (Inl e)
        with IH have e: "e = ValueError" and nb: "\<not> breakable n ?s'" by simp_all
        from nb obtain i where i: "i < length ?s' - n" "CHR '' '' \<notin> set (take n (drop i ?s'))"
          unfolding breakable_def by auto
        have "i + m < length s - n" using i(1) by simp
        moreover have "drop (i + m) s = drop i ?s'" by (simp add: add.commute)
        ultimately have "\<not> breakable n s"
          unfolding breakable_def using i(2) by (metis atLeast0LessThan lessThan_iff set_upt)
        with Inl e eq show ?thesis by simp
      next
        case (Inr out)
        with IH obtain ls where out: "out = (acc @ [?l]) @ ls" and w: "wrapped (n + 1) ls ?s'"
          by auto
        from w obtain l' ls' where ls: "ls = l' # ls'" by (cases ls) (auto simp: wrapped_def)
        have body: "butlast ?l = take m s" by (simp add: butlast_append)
        have ne: "take m s \<noteq> []" using m n by auto
        have "last (take m s) = take m s ! (m - 1)"
          using ne m n by (simp add: last_conv_nth)
        also have "\<dots> = s ! (m - 1)" using m by simp
        finally have lastsp: "last (take m s) = CHR '' ''" using spc by simp
        have rj: "rejoin_spec (?l # ls) = take m s @ rejoin_spec ls"
          unfolding ls using ne lastsp by (simp add: Let_def butlast_append)
        have len: "length ?l \<le> n + 1" using m n by simp
        have "wrapped (n + 1) (?l # ls) s"
          using w len rj unfolding wrapped_def ls by (auto simp: Let_def)
        with out Inr eq show ?thesis by simp
      qed
    qed
  qed
qed

lemma break_loop_raises:
  "\<not> breakable n s \<Longrightarrow> break_loop n s acc = Inl ValueError"
proof (induction "length s" arbitrary: s acc rule: less_induct)
  case less
  from less.prems obtain i where i: "i < length s - n"
    and w: "CHR '' '' \<notin> set (take n (drop i s))"
    unfolding breakable_def by auto
  from i have n: "n < length s" by simp
  show ?case
  proof (cases "CHR '' '' \<in> set (take n s)")
    case False
    with n show ?thesis by (simp add: break_loop_fail)
  next
    case sp: True
    define k where "k = length (takeWhile (\<lambda>y. y \<noteq> CHR '' '') (rev (take n s)))"
    define m where "m = n - k"
    note st = break_loop_step[OF n sp, folded k_def, folded m_def]
    have k: "k < n" using st(2) .
    have m: "1 \<le> m" "m \<le> n" using k by (simp_all add: m_def)
    have spc: "s ! (m - 1) = CHR '' ''" using st(3) by (simp add: m_def)
    have mi: "m \<le> i"
    proof (rule ccontr)
      assume "\<not> m \<le> i"
      then have lt: "i \<le> m - 1" by simp
      have "take n (drop i s) ! (m - 1 - i) = s ! (m - 1)"
        using lt m i by simp
      moreover have "m - 1 - i < length (take n (drop i s))" using lt m i by simp
      ultimately have "s ! (m - 1) \<in> set (take n (drop i s))" by (metis nth_mem)
      with spc w show False by simp
    qed
    let ?s' = "drop m s"
    have shorter: "length ?s' < length s" using m n by simp
    have "i - m < length ?s' - n" using i mi by simp
    moreover have "drop (i - m) ?s' = drop i s" using mi by simp
    ultimately have "\<not> breakable n ?s'"
      unfolding breakable_def using w by (metis atLeast0LessThan lessThan_iff set_upt)
    from less.hyps[OF shorter this] st(1) show ?thesis by simp
  qed
qed

text \<open>
  A line of 79 characters without a space: the search for the last space in the first
  76 characters fails, and \<^verbatim>\<open>check_length_of_line\<close> raises instead of returning lines.
\<close>

theorem check_length_of_line_unbreakable:
  "length (replicate 79 CHR ''a'') > 78
   \<and> check_length_of_line (replicate 79 CHR ''a'') = Inl ValueError"
  by code_simp

text \<open>
  Claim C3, amended. For every input line longer than 78 characters in which every
  window of 76 characters followed by more characters contains a space, the wrapper
  returns lines: each has at most 78 characters, each line but the last ends with the
  marker \<^verbatim>\<open>-\<close>, and stripping the markers and rejoining (no space inserted after a
  marker that follows a space) gives the input line back. Whenever the wrapper
  returns lines they have these properties. It raises \<^verbatim>\<open>ValueError\<close> on every line
  longer than 78 characters that has a window of 76 characters, followed by more
  characters, without a space, and on no other line.
\<close>

theorem check_length_of_line_wraps:
  "(length s > 78 \<and> breakable 76 s \<longrightarrow>
      (\<exists>ls. check_length_of_line s = Inr ls
         \<and> (\<forall>l \<in> set ls. length l \<le> 78)
         \<and> (\<forall>l \<in> set (butlast ls). l \<noteq> [] \<and> last l = CHR ''-'')
         \<and> rejoin_spec ls = s))
   \<and> (check_length_of_line s = Inr ls \<longrightarrow>
         (\<forall>l \<in> set ls. length l \<le> 78)
         \<and> (\<forall>l \<in> set (butlast ls). l \<noteq> [] \<and> last l = CHR ''-'')
         \<and> rejoin_spec ls = s)
   \<and> (check_length_of_line s = Inl e \<longrightarrow> e = ValueError \<and> length s > 78 \<and> \<not> breakable 76 s)
   \<and> (length s > 78 \<and> \<not> breakable 76 s \<longrightarrow> check_length_of_line s = Inl ValueError)"
proof -
  have part: "(\<forall>l \<in> set ls. length l \<le> 78)
         \<and> (\<forall>l \<in> set (butlast ls). l \<noteq> [] \<and> last l = CHR ''-'')
         \<and> rejoin_spec ls = s" if r: "check_length_of_line s = Inr ls" for ls
  proof (cases "length s > 78")
    case False
    with r have "ls = [s]" by (simp add: check_length_of_line_def)
    with False show ?thesis by simp
  next
    case True
    with r have b: "break_loop 76 s [] = Inr ls" by (simp add: check_length_of_line_def)
    from break_loop_correct[of 76 s "[]"] b have "wrapped 77 ls s" by simp
    then show ?thesis unfolding wrapped_def by fastforce
  qed
  have err: "e = ValueError \<and> length s > 78 \<and> \<not> breakable 76 s"
    if r: "check_length_of_line s = Inl e" for e
  proof -
    from r have l: "length s > 78" by (auto simp: check_length_of_line_def split: if_splits)
    with r have b: "break_loop 76 s [] = Inl e" by (simp add: check_length_of_line_def)
    from break_loop_correct[of 76 s "[]"] b l show ?thesis by simp
  qed
  have tot: "\<exists>ls. check_length_of_line s = Inr ls" if "breakable 76 s"
    using that err by (cases "check_length_of_line s") auto
  have raises: "check_length_of_line s = Inl ValueError"
    if "length s > 78" "\<not> breakable 76 s"
    using that by (simp add: check_length_of_line_def break_loop_raises)
  show ?thesis using part err tot raises by blast
qed

theorem check_length_of_line_wraps_witness:
  "length line_80 > 78 \<and> breakable 76 line_80
   \<and> check_length_of_line line_80
       = Inr [''abcd abcd abcd abcd abcd abcd abcd abcd abcd abcd abcd abcd abcd abcd abcd -'',
              ''abcd '']
   \<and> rejoin_spec [''abcd abcd abcd abcd abcd abcd abcd abcd abcd abcd abcd abcd abcd abcd abcd -'',
              ''abcd ''] = line_80
   \<and> length (''a '' @ replicate 77 CHR ''b'') > 78
   \<and> \<not> breakable 76 (''a '' @ replicate 77 CHR ''b'')
   \<and> check_length_of_line (''a '' @ replicate 77 CHR ''b'') = Inl ValueError"
proof -
  have h: "length line_80 > 78 \<and> breakable 76 line_80" by code_simp
  have c: "check_length_of_line line_80
       = Inr [''abcd abcd abcd abcd abcd abcd abcd abcd abcd abcd abcd abcd abcd abcd abcd -'',
              ''abcd '']" by code_simp
  have u: "length (''a '' @ replicate 77 CHR ''b'') > 78
      \<and> \<not> breakable 76 (''a '' @ replicate 77 CHR ''b'')" by code_simp
  from check_length_of_line_wraps[of line_80
      "[''abcd abcd abcd abcd abcd abcd abcd abcd abcd abcd abcd abcd abcd abcd abcd -'', ''abcd '']"]
    check_length_of_line_wraps[of "''a '' @ replicate 77 CHR ''b''"]
  show ?thesis using h c u by simp
qed

subsection \<open>Axis normalisation\<close>

lemmas convert_eval = convert_direction_def convert_joint_def convert_member_def
  convert_support_def convert_k_def convert_selfweight_def convert_joint_load_def
  convert_member_load_def convert_element_load_def convert_load_items_def
  convert_loadcase_def py_key_def py_get_def neg1_mul_def py_float_def Let_def

text \<open>
  Claim C2. On a file with up-axis \<^verbatim>\<open>Y\<close> the joint at (1, 2, 3) moves to (1, -3, 2),
  and the member load of 10 in direction \<^verbatim>\<open>GZ\<close> gets the direction \<^verbatim>\<open>GY\<close> but keeps
  the force 10, where the claim has -10; the shell pressure beside it, converted by the
  branch for element loads, becomes -10.
\<close>

theorem convert_direction_member_load_force:
  "convert_direction pfloat doc_member_load = Inr (doc_member_load \<lparr>
     direction := ''Z'',
     joint_coordinates := [(''1'', [1, - 3, 2])],
     primary_loadcases := [(''1'', \<lparr> load_type = ''Live'', load_name = ''LL'',
       load_items = [
         (''MEMBER LOAD'', [(KInt 1, [(''load_type'', PStr ''uniform_force''),
            (''direction'', PStr ''GY''), (''force'', PNum 10), (''d1'', PNone),
            (''d2'', PNone), (''d3'', PNone), (''assigned_members'', PList [''1''])])]),
         (''ELEMENT LOAD'', [(KInt 1, [(''load_type'', PStr ''pressure_on_full_plate''),
            (''force'', PNum (- 10)), (''direction'', PStr ''GY''),
            (''assigned_members'', PList [''7''])])])] \<rparr>)] \<rparr>)"
  by (simp add: doc_member_load_def doc_empty_def convert_eval)

text \<open>
  Claim C9. On a file with up-axis \<^verbatim>\<open>Y\<close> the joint load and the support displacement
  load with the components 1 to 6 come back unchanged: only the declared up-axis of the
  file differs, where the claim has FY = -3, FZ = 2, MY = -6 and MZ = 5.
\<close>

theorem convert_direction_joint_load_unchanged:
  "convert_direction pfloat doc_joint_load = Inr (doc_joint_load \<lparr> direction := ''Z'' \<rparr>)"
  by (simp add: doc_joint_load_def doc_empty_def components_1_to_6_def convert_eval)

subsection \<open>Line joiner\<close>

text \<open>
  Claim C6. A comment line that ends with a hyphen is removed, but the line after it is
  still tested against it: the kept line \<^verbatim>\<open>JOINT COORDINATES\<close> loses its last character
  and is merged with the next line. A line with a star that is neither its first
  character nor its first field is removed as well, since the first test of the loop
  looks for a star anywhere in the line.
\<close>

theorem read_file_comment_before_content:
  "read_file [''JOINT COORDINATES'', ''*-----'', ''1 0 0 0;'']
     = Inr [''JOINT COORDINATE 1 0 0 0;'']
   \<and> read_file [''PRINT A * B''] = Inr []"
  by (simp add: read_file_def split_sp_def py_get_def last_chars_def without_last_def)

text \<open>
  Claim C7. After a line that contains \<^verbatim>\<open>TITLE\<close> and ends with the marker and a
  space, the next line is merged into the title, while after the same title ending
  with the marker alone it is not: the second merging branch has no test for
  \<^verbatim>\<open>TITLE\<close>. The first line is tested against the last line of the file, so that a
  file whose last line ends with the marker raises \<^verbatim>\<open>IndexError\<close>.
\<close>

theorem read_file_title_before_marker_space:
  "read_file [''TITLE A- '', ''B''] = Inr [''TITLE A B'']
   \<and> read_file [''TITLE A-'', ''B''] = Inr [''TITLE A-'', ''B'']
   \<and> read_file [''A'', ''B -''] = Inl IndexError"
  by (simp add: read_file_def split_sp_def py_get_def last_chars_def without_last_def)

end
